theory Spec2Isabelle
  imports Main "HOL-Library.Word" "HOL-Library.Sublist" "HOL-Library.Multiset"
begin

section \<open>The short-link service of \<^verbatim>\<open>src/index.js\<close>\<close>

text \<open>
  The service is an Express application over one PostgreSQL table \<^verbatim>\<open>links\<close>. Each route
  handler becomes a function from the store (and, where the handler uses them, the clock
  value \<^verbatim>\<open>NOW()\<close> and the random source) to an HTTP response and the new store. Strings are
  byte strings; the model is exact on ASCII input, which is all the code format admits.
\<close>

subsection \<open>Characters and strings as JavaScript and SQL treat them\<close>

type_synonym byte = "8 word"
type_synonym time = nat

definition is_digit :: "char \<Rightarrow> bool" where
  "is_digit c = (48 \<le> (of_char c :: nat) \<and> (of_char c :: nat) \<le> 57)"

definition is_upper :: "char \<Rightarrow> bool" where
  "is_upper c = (65 \<le> (of_char c :: nat) \<and> (of_char c :: nat) \<le> 90)"

definition is_lower :: "char \<Rightarrow> bool" where
  "is_lower c = (97 \<le> (of_char c :: nat) \<and> (of_char c :: nat) \<le> 122)"

text \<open>The character class \<^verbatim>\<open>[a-zA-Z0-9]\<close> of the handler's regular expression.\<close>

definition is_alnum :: "char \<Rightarrow> bool" where
  "is_alnum c = (is_lower c \<or> is_upper c \<or> is_digit c)"

definition upper_char :: "char \<Rightarrow> char" where
  "upper_char c = (if is_lower c then char_of ((of_char c :: nat) - 32) else c)"

definition lower_char :: "char \<Rightarrow> char" where
  "lower_char c = (if is_upper c then char_of ((of_char c :: nat) + 32) else c)"

definition toUpperCase :: "string \<Rightarrow> string" where
  "toUpperCase s = map upper_char s"

text \<open>\<^verbatim>\<open>String.prototype.toLowerCase\<close> and SQL \<^verbatim>\<open>LOWER\<close>, which agree on ASCII.\<close>

definition toLowerCase :: "string \<Rightarrow> string" where
  "toLowerCase s = map lower_char s"

definition startsWith :: "string \<Rightarrow> string \<Rightarrow> bool" where
  "startsWith s p = (take (length p) s = p)"

text \<open>\<^verbatim>\<open>s.slice(i, j)\<close> for \<open>0 \<le> i \<le> j\<close>.\<close>

definition slice :: "string \<Rightarrow> nat \<Rightarrow> nat \<Rightarrow> string" where
  "slice s i j = take (j - i) (drop i s)"

text \<open>
  \<^verbatim>\<open>/^[a-zA-Z0-9]+$/.test(code)\<close>: without the multiline flag the anchors are the two ends
  of the input, so the test holds iff the string is non-empty and every character is in
  the class.
\<close>

definition regex_alnum_plus :: "string \<Rightarrow> bool" where
  "regex_alnum_plus s = (s \<noteq> [] \<and> list_all is_alnum s)"

subsection \<open>Request values\<close>

text \<open>
  A field of the parsed JSON body, as the handler can observe it. \<open>JUndefined\<close> is an absent
  field. A number is carried as the text JavaScript prints for it (\<^verbatim>\<open>String(n)\<close>, for example
  \<^verbatim>\<open>123456789\<close>, \<^verbatim>\<open>1.5\<close>, \<^verbatim>\<open>-3\<close>, \<^verbatim>\<open>1e+21\<close>); both zeros print as \<^verbatim>\<open>0\<close>, and JSON has no
  NaN. \<open>JObject\<close> is a JSON object with no own property named \<^verbatim>\<open>length\<close>, \<^verbatim>\<open>toString\<close> or
  \<^verbatim>\<open>valueOf\<close>.
\<close>

datatype jsval =
    JUndefined
  | JNull
  | JBool bool
  | JNum string
  | JStr string
  | JArr "jsval list"
  | JObject

fun truthy :: "jsval \<Rightarrow> bool" where
  "truthy JUndefined = False"
| "truthy JNull = False"
| "truthy (JBool b) = b"
| "truthy (JNum n) = (n \<noteq> ''0'')"
| "truthy (JStr s) = (s \<noteq> [])"
| "truthy (JArr xs) = True"
| "truthy JObject = True"

fun typeof :: "jsval \<Rightarrow> string" where
  "typeof JUndefined = ''undefined''"
| "typeof JNull = ''object''"
| "typeof (JBool b) = ''boolean''"
| "typeof (JNum n) = ''number''"
| "typeof (JStr s) = ''string''"
| "typeof (JArr xs) = ''object''"
| "typeof JObject = ''object''"

text \<open>\<^verbatim>\<open>strings.join(sep)\<close>\<close>

fun join :: "string \<Rightarrow> string list \<Rightarrow> string" where
  "join sep [] = []"
| "join sep [x] = x"
| "join sep (x # y # ys) = x @ sep @ join sep (y # ys)"

text \<open>
  The property \<^verbatim>\<open>v.length\<close>: a string and an array have one, a number and a boolean give
  \<^verbatim>\<open>undefined\<close> (\<open>None\<close>).
\<close>

fun js_length :: "jsval \<Rightarrow> nat option" where
  "js_length (JStr s) = Some (length s)"
| "js_length (JArr xs) = Some (length xs)"
| "js_length _ = None"

text \<open>
  \<^verbatim>\<open>String(v)\<close>, the conversion \<^verbatim>\<open>RegExp.prototype.test\<close> applies to its argument. An array
  prints its elements separated by commas, with nothing for a null or absent element.
\<close>

fun js_toString :: "jsval \<Rightarrow> string" where
  "js_toString JUndefined = ''undefined''"
| "js_toString JNull = ''null''"
| "js_toString (JBool b) = (if b then ''true'' else ''false'')"
| "js_toString (JNum n) = n"
| "js_toString (JStr s) = s"
| "js_toString (JArr xs) =
     join '','' (map (\<lambda>x. if x = JUndefined \<or> x = JNull then [] else js_toString x) xs)"
| "js_toString JObject = ''[object Object]''"

text \<open>
  The text the database driver sends for a query parameter (node-postgres, \<^verbatim>\<open>prepareValue\<close>):
  a string as it is, a number and a boolean as JavaScript prints them, an array as a
  PostgreSQL array literal with every scalar element quoted. The handler passes only a
  truthy value that has passed the pattern test, so a null, an absent value and an object
  never get here; the model gives them the empty text.
\<close>

definition pg_escape :: "string \<Rightarrow> string" where
  "pg_escape s =
     concat (map (\<lambda>c. if c = CHR 0x5C then [CHR 0x5C, CHR 0x5C]
                       else if c = CHR 0x22 then [CHR 0x5C, CHR 0x22] else [c]) s)"

fun pg_text :: "jsval \<Rightarrow> string" where
  "pg_text JUndefined = []"
| "pg_text JNull = []"
| "pg_text (JBool b) = (if b then ''true'' else ''false'')"
| "pg_text (JNum n) = n"
| "pg_text (JStr s) = s"
| "pg_text (JArr xs) =
     ''{'' @ join '','' (map (\<lambda>x. case x of
                                   JUndefined \<Rightarrow> ''NULL''
                                 | JNull \<Rightarrow> ''NULL''
                                 | JArr ys \<Rightarrow> pg_text x
                                 | _ \<Rightarrow> CHR 0x22 # pg_escape (pg_text x) @ [CHR 0x22]) xs) @ ''}''"
| "pg_text JObject = []"

text \<open>
  The body of \<^verbatim>\<open>POST /api/links\<close>: the two fields the handler reads, each any JSON value or
  absent.
\<close>

record create_body =
  body_target_url :: jsval
  body_custom_code :: jsval

subsection \<open>The table\<close>

record link =
  link_id :: nat
  code :: string
  target_url :: string
  clicks :: nat
  last_clicked_at :: "time option"
  created_at :: time
  updated_at :: time

text \<open>
  The store: the rows of \<^verbatim>\<open>links\<close> in insertion order. The table's declaration is not part
  of the source file, so whether \<^verbatim>\<open>code\<close> carries a UNIQUE constraint is a parameter of the
  store (\<open>code_unique\<close>).
\<close>

record db =
  rows :: "link list"
  next_id :: nat
  code_unique :: bool

datatype db_error = UniqueViolation

text \<open>\<^verbatim>\<open>SELECT ... FROM links WHERE code = $1\<close>\<close>

definition select_by_code :: "db \<Rightarrow> string \<Rightarrow> link list" where
  "select_by_code d c = filter (\<lambda>l. code l = c) (rows d)"

text \<open>
  Modelled from the spec: the column defaults of the table, whose declaration is missing.
  A new row gets an identifier of the store's own, \<open>clicks = 0\<close> and a null
  \<open>last_clicked_at\<close> (spec, section 3: clicks "starts at 0", last_clicked_at "null until
  first redirect"). The INSERT statement itself sets the other four columns.
\<close>

definition new_row :: "db \<Rightarrow> time \<Rightarrow> string \<Rightarrow> string \<Rightarrow> link" where
  "new_row d now c u =
     \<lparr>link_id = next_id d, code = c, target_url = u, clicks = 0,
      last_clicked_at = None, created_at = now, updated_at = now\<rparr>"

text \<open>\<^verbatim>\<open>INSERT INTO links (code, target_url, created_at, updated_at) VALUES ($1, $2, NOW(), NOW()) RETURNING ...\<close>\<close>

definition insert_link :: "db \<Rightarrow> time \<Rightarrow> string \<Rightarrow> string \<Rightarrow> db_error + (link \<times> db)" where
  "insert_link d now c u =
     (if code_unique d \<and> select_by_code d c \<noteq> [] then Inl UniqueViolation
      else Inr (new_row d now c u,
                d\<lparr>rows := rows d @ [new_row d now c u], next_id := Suc (next_id d)\<rparr>))"

text \<open>
  \<^verbatim>\<open>UPDATE links SET clicks = clicks , last_clicked_at = NOW(), updated_at = NOW() WHERE code = $1 RETURNING target_url\<close>:
  the statement of the redirect handler. It assigns \<open>clicks\<close> to itself.
\<close>

definition update_touch :: "db \<Rightarrow> time \<Rightarrow> string \<Rightarrow> string list \<times> db" where
  "update_touch d now c =
     (map target_url (select_by_code d c),
      d\<lparr>rows := map (\<lambda>l. if code l = c
                          then l\<lparr>clicks := clicks l, last_clicked_at := Some now, updated_at := now\<rparr>
                          else l) (rows d)\<rparr>)"

text \<open>\<^verbatim>\<open>UPDATE links SET clicks = $1, last_clicked_at = NOW(), updated_at = NOW() WHERE code = $2 RETURNING id\<close>\<close>

definition update_set_clicks :: "db \<Rightarrow> time \<Rightarrow> nat \<Rightarrow> string \<Rightarrow> nat list \<times> db" where
  "update_set_clicks d now n c =
     (map link_id (select_by_code d c),
      d\<lparr>rows := map (\<lambda>l. if code l = c
                          then l\<lparr>clicks := n, last_clicked_at := Some now, updated_at := now\<rparr>
                          else l) (rows d)\<rparr>)"

text \<open>\<^verbatim>\<open>DELETE FROM links WHERE code = $1 RETURNING id\<close>\<close>

definition delete_by_code :: "db \<Rightarrow> string \<Rightarrow> nat list \<times> db" where
  "delete_by_code d c =
     (map link_id (select_by_code d c), d\<lparr>rows := filter (\<lambda>l. code l \<noteq> c) (rows d)\<rparr>)"

subsection \<open>The code generator\<close>

text \<open>
  The random source is the sequence of bytes \<^verbatim>\<open>crypto.randomBytes\<close> will return from now on;
  a call takes the first \<open>n\<close> of them and leaves the rest.
\<close>

type_synonym rng = "nat \<Rightarrow> byte"

definition randomBytes :: "nat \<Rightarrow> rng \<Rightarrow> byte list \<times> rng" where
  "randomBytes n g = (map g [0..<n], \<lambda>i. g (i + n))"

definition hex_digit :: "nat \<Rightarrow> char" where
  "hex_digit n = ''0123456789abcdef'' ! (n mod 16)"

text \<open>\<^verbatim>\<open>buffer.toString('hex')\<close>: two lower-case digits per byte, high nibble first.\<close>

definition toHex :: "byte list \<Rightarrow> string" where
  "toHex bs = concat (map (\<lambda>b. [hex_digit (unat b div 16), hex_digit (unat b mod 16)]) bs)"

text \<open>\<^verbatim>\<open>crypto.randomBytes(3).toString('hex').toUpperCase().slice(0, 5)\<close>\<close>

definition generateShortCode :: "rng \<Rightarrow> string \<times> rng" where
  "generateShortCode g =
     (case randomBytes 3 g of (bs, g') \<Rightarrow> (slice (toUpperCase (toHex bs)) 0 5, g'))"

subsection \<open>Responses\<close>

text \<open>
  A response is its status code and what the body carries. The derived presentation fields
  (\<^verbatim>\<open>short_url\<close>, formatted dates) are functions of the row and the environment and are left
  out.
\<close>

record stats =
  shortCode :: string
  targetUrl :: string
  totalClicks :: nat
  lastClickedAt :: "time option"

datatype body =
    ErrorBody string
  | LinkBody link
  | LinksBody "link list"
  | StatsBody stats
  | MessageBody string
  | IncrementBody string nat
  | TextBody string
  | Location string

datatype response = Response (status: nat) (body: body)

subsection \<open>\<^verbatim>\<open>POST /api/links\<close>\<close>

definition target_url_rejected :: "jsval \<Rightarrow> bool" where
  "target_url_rejected t =
     (\<not> truthy t \<or> typeof t \<noteq> ''string'' \<or>
      (case t of JStr s \<Rightarrow> \<not> startsWith s ''http'' | _ \<Rightarrow> True))"

text \<open>\<^verbatim>\<open>custom_code || generateShortCode()\<close>: the generator runs only when the field is falsy.\<close>

definition choose_code :: "jsval \<Rightarrow> rng \<Rightarrow> jsval \<times> rng" where
  "choose_code cc g =
     (if truthy cc then (cc, g) else (case generateShortCode g of (s, g') \<Rightarrow> (JStr s, g')))"

text \<open>
  \<^verbatim>\<open>code.length > 8 || !/^[a-zA-Z0-9]+$/.test(code)\<close>. A comparison with \<^verbatim>\<open>undefined\<close> is false.
\<close>

definition code_rejected :: "jsval \<Rightarrow> bool" where
  "code_rejected c =
     ((case js_length c of Some n \<Rightarrow> n > 8 | None \<Rightarrow> False) \<or> \<not> regex_alnum_plus (js_toString c))"

definition create_link :: "rng \<Rightarrow> db \<Rightarrow> time \<Rightarrow> create_body \<Rightarrow> response \<times> db \<times> rng" where
  "create_link g d now b =
     (if target_url_rejected (body_target_url b)
      then (Response 400 (ErrorBody ''Valid target_url is required''), d, g)
      else
        (case body_target_url b of
           JStr url \<Rightarrow>
             (case choose_code (body_custom_code b) g of
                (c, g') \<Rightarrow>
                  if code_rejected c
                  then (Response 400 (ErrorBody ''Custom code must be 1-8 alphanumeric chars''), d, g')
                  else if select_by_code d (pg_text c) \<noteq> []
                  then (Response 409 (ErrorBody ''Code already exists. Try another.''), d, g')
                  else
                    (case insert_link d now (pg_text c) url of
                       Inl e \<Rightarrow> (Response 500 (ErrorBody ''Failed to create link''), d, g')
                     | Inr (l, d') \<Rightarrow> (Response 201 (LinkBody l), d', g')))
         | _ \<Rightarrow> (Response 400 (ErrorBody ''Valid target_url is required''), d, g)))"

text \<open>Several requests served one after another, each with its own clock value.\<close>

fun create_links :: "rng \<Rightarrow> db \<Rightarrow> (time \<times> create_body) list \<Rightarrow> response list \<times> db \<times> rng" where
  "create_links g d [] = ([], d, g)"
| "create_links g d ((now, b) # reqs) =
     (case create_link g d now b of
        (r, d', g') \<Rightarrow> (case create_links g' d' reqs of (rs, d'', g'') \<Rightarrow> (r # rs, d'', g'')))"

subsection \<open>\<^verbatim>\<open>GET /api/links\<close>\<close>

text \<open>
  SQL \<^verbatim>\<open>subject LIKE pattern\<close> with PostgreSQL's default escape character: \<^verbatim>\<open>%\<close> matches any
  sequence of characters, \<^verbatim>\<open>_\<close> any one character, a backslash makes the next pattern
  character literal, every other character matches itself. The pattern comes first.
  PostgreSQL raises an error on a pattern that ends in an unescaped backslash when a
  non-empty subject reaches it; the handler's patterns end in \<^verbatim>\<open>%\<close>, so that every backslash
  has a successor, and the model answers \<open>False\<close> there.
\<close>

fun like_match :: "string \<Rightarrow> string \<Rightarrow> bool" where
  "like_match [] s = (s = [])"
| "like_match (p # ps) [] = (p = CHR ''%'' \<and> like_match ps [])"
| "like_match (p # ps) (x # xs) =
     (if p = CHR ''%'' then like_match ps (x # xs) \<or> like_match (p # ps) xs
      else if p = CHR ''_'' then like_match ps xs
      else if p = CHR 0x5C then (case ps of [] \<Rightarrow> False | q # qs \<Rightarrow> x = q \<and> like_match qs xs)
      else x = p \<and> like_match ps xs)"

text \<open>\<^verbatim>\<open>ORDER BY created_at DESC\<close>; among rows of one \<open>created_at\<close> the order is the store's choice.\<close>

definition order_by_created_at_desc :: "link list \<Rightarrow> link list" where
  "order_by_created_at_desc ls = rev (sort_key created_at ls)"

text \<open>The pattern parameter \<^verbatim>\<open>`%${search.toLowerCase()}%`\<close>.\<close>

definition search_pattern :: "string \<Rightarrow> string" where
  "search_pattern s = CHR ''%'' # toLowerCase s @ [CHR ''%'']"

text \<open>\<^verbatim>\<open>WHERE LOWER(code) LIKE $1 OR LOWER(target_url) LIKE $1\<close>\<close>

definition search_where :: "string \<Rightarrow> link \<Rightarrow> bool" where
  "search_where pat l =
     (like_match pat (toLowerCase (code l)) \<or> like_match pat (toLowerCase (target_url l)))"

text \<open>The query parameter \<open>search\<close> is absent (\<open>None\<close>) or a string; the empty string is falsy.\<close>

definition list_links :: "db \<Rightarrow> string option \<Rightarrow> response" where
  "list_links d search =
     (case search of
        None \<Rightarrow> Response 200 (LinksBody (order_by_created_at_desc (rows d)))
      | Some s \<Rightarrow>
          if s \<noteq> []
          then Response 200 (LinksBody
                 (order_by_created_at_desc (filter (search_where (search_pattern s)) (rows d))))
          else Response 200 (LinksBody (order_by_created_at_desc (rows d))))"

subsection \<open>\<^verbatim>\<open>GET /api/links/:code\<close> and \<^verbatim>\<open>DELETE /api/links/:code\<close>\<close>

definition get_link :: "db \<Rightarrow> string \<Rightarrow> response" where
  "get_link d c =
     (case select_by_code d c of
        [] \<Rightarrow> Response 404 (ErrorBody ''Link not found'')
      | l # _ \<Rightarrow>
          Response 200 (StatsBody \<lparr>shortCode = code l, targetUrl = target_url l,
                                   totalClicks = clicks l, lastClickedAt = last_clicked_at l\<rparr>))"

definition delete_link :: "db \<Rightarrow> string \<Rightarrow> response \<times> db" where
  "delete_link d c =
     (case delete_by_code d c of
        (ids, d') \<Rightarrow>
          if ids = [] then (Response 404 (ErrorBody ''Link not found''), d')
          else (Response 200 (MessageBody ''Link deleted successfully''), d'))"

subsection \<open>\<^verbatim>\<open>GET /:code\<close>, the redirect handler\<close>

definition redirect :: "db \<Rightarrow> time \<Rightarrow> string \<Rightarrow> response \<times> db" where
  "redirect d now c =
     (case update_touch d now c of
        (urls, d') \<Rightarrow>
          (case urls of
             [] \<Rightarrow> (Response 404 (TextBody ''Link not found''), d')
           | u # _ \<Rightarrow> (Response 302 (Location u), d')))"

subsection \<open>\<^verbatim>\<open>POST /api/increment/:code\<close>\<close>

definition increment :: "db \<Rightarrow> time \<Rightarrow> string \<Rightarrow> response \<times> db" where
  "increment d now c =
     (case select_by_code d c of
        [] \<Rightarrow> (Response 404 (ErrorBody ''Link not found''), d)
      | l # _ \<Rightarrow>
          (case update_set_clicks d now (clicks l + 1) c of
             (ids, d') \<Rightarrow>
               if ids = [] then (Response 404 (ErrorBody ''Link not found''), d')
               else (Response 200 (IncrementBody ''Clicks incremented successfully'' (clicks l + 1)), d')))"

text \<open>Increment requests served one after another, one clock value each.\<close>

fun increments :: "db \<Rightarrow> time list \<Rightarrow> string \<Rightarrow> db" where
  "increments d [] c = d"
| "increments d (now # ts) c = increments (snd (increment d now c)) ts c"

text \<open>The click count a client reads for a code: \<open>totalClicks\<close> of \<^verbatim>\<open>GET /api/links/:code\<close>.\<close>

definition total_clicks :: "db \<Rightarrow> string \<Rightarrow> nat option" where
  "total_clicks d c = (case select_by_code d c of [] \<Rightarrow> None | l # _ \<Rightarrow> Some (clicks l))"

subsection \<open>Requests in flight\<close>

text \<open>
  Node runs a handler without interruption up to its next \<^verbatim>\<open>await pool.query(...)\<close>, and the
  store executes each statement atomically. So a handler in flight is a task that waits for
  one statement; a step runs that statement and the handler's code up to the next
  \<^verbatim>\<open>await\<close> or the response. Steps of different tasks interleave in any order.
\<close>

datatype request = ReqCreate create_body | ReqIncrement string | ReqRedirect string

datatype task =
    CreateCheck string string
  | CreateInsert string string
  | IncrementSelect string
  | IncrementUpdate string nat
  | RedirectUpdate string
  | Done response

text \<open>The handler's code before its first statement.\<close>

definition start :: "rng \<Rightarrow> request \<Rightarrow> task \<times> rng" where
  "start g rq =
     (case rq of
        ReqCreate b \<Rightarrow>
          if target_url_rejected (body_target_url b)
          then (Done (Response 400 (ErrorBody ''Valid target_url is required'')), g)
          else
            (case body_target_url b of
               JStr url \<Rightarrow>
                 (case choose_code (body_custom_code b) g of
                    (c, g') \<Rightarrow>
                      if code_rejected c
                      then (Done (Response 400 (ErrorBody ''Custom code must be 1-8 alphanumeric chars'')), g')
                      else (CreateCheck (pg_text c) url, g'))
             | _ \<Rightarrow> (Done (Response 400 (ErrorBody ''Valid target_url is required'')), g))
      | ReqIncrement c \<Rightarrow> (IncrementSelect c, g)
      | ReqRedirect c \<Rightarrow> (RedirectUpdate c, g))"

fun step :: "db \<Rightarrow> time \<Rightarrow> task \<Rightarrow> task \<times> db" where
  "step d now (CreateCheck c url) =
     (if select_by_code d c \<noteq> []
      then (Done (Response 409 (ErrorBody ''Code already exists. Try another.'')), d)
      else (CreateInsert c url, d))"
| "step d now (CreateInsert c url) =
     (case insert_link d now c url of
        Inl e \<Rightarrow> (Done (Response 500 (ErrorBody ''Failed to create link'')), d)
      | Inr (l, d') \<Rightarrow> (Done (Response 201 (LinkBody l)), d'))"
| "step d now (IncrementSelect c) =
     (case select_by_code d c of
        [] \<Rightarrow> (Done (Response 404 (ErrorBody ''Link not found'')), d)
      | l # _ \<Rightarrow> (IncrementUpdate c (clicks l), d))"
| "step d now (IncrementUpdate c currentClicks) =
     (case update_set_clicks d now (currentClicks + 1) c of
        (ids, d') \<Rightarrow>
          if ids = [] then (Done (Response 404 (ErrorBody ''Link not found'')), d')
          else (Done (Response 200 (IncrementBody ''Clicks incremented successfully'' (currentClicks + 1))), d'))"
| "step d now (RedirectUpdate c) =
     (case redirect d now c of (r, d') \<Rightarrow> (Done r, d'))"
| "step d now (Done r) = (Done r, d)"

text \<open>
  A schedule names, step by step, the task whose statement the store executes next and the
  clock value of that statement.
\<close>

fun exec :: "(nat \<times> time) list \<Rightarrow> db \<times> task list \<Rightarrow> db \<times> task list" where
  "exec [] cf = cf"
| "exec ((i, now) # sch) (d, ts) =
     (if i < length ts
      then (case step d now (ts ! i) of (t', d') \<Rightarrow> exec sch (d', ts[i := t']))
      else exec sch (d, ts))"

text \<open>The response of a task that has finished.\<close>

fun response_of :: "task \<Rightarrow> response option" where
  "response_of (Done r) = Some r"
| "response_of _ = None"

definition statuses :: "task list \<Rightarrow> nat option list" where
  "statuses ts = map (map_option status \<circ> response_of) ts"

subsection \<open>The properties of the specification, in its own words\<close>

text \<open>The code format: 1 to 8 characters, each of \<^verbatim>\<open>[A-Za-z0-9]\<close>.\<close>

definition code_format :: "string \<Rightarrow> bool" where
  "code_format c = (1 \<le> length c \<and> length c \<le> 8 \<and> list_all is_alnum c)"

text \<open>
  A target URL "begins with an HTTP scheme": the scheme of a URL is the text before its first
  colon, read without regard to letter case, and the HTTP schemes are \<^verbatim>\<open>http\<close> and \<^verbatim>\<open>https\<close>.
\<close>

definition begins_with_http_scheme :: "string \<Rightarrow> bool" where
  "begins_with_http_scheme u =
     (prefix ''http:'' (toLowerCase u) \<or> prefix ''https:'' (toLowerCase u))"

text \<open>
  A create request that asks for the custom code \<open>X\<close> with a target URL the handler accepts
  (a string that begins with \<^verbatim>\<open>http\<close>).
\<close>

definition requests_code :: "string \<Rightarrow> create_body \<Rightarrow> bool" where
  "requests_code X b =
     (body_custom_code b = JStr X \<and>
      (case body_target_url b of JStr u \<Rightarrow> prefix ''http'' u | _ \<Rightarrow> False))"

text \<open>
  The generated code in terms of the random bytes: the two upper-case hexadecimal digits of
  the first byte, the two of the second and the high digit of the third.
\<close>

definition upper_hex_digit :: "nat \<Rightarrow> char" where
  "upper_hex_digit n = ''0123456789ABCDEF'' ! (n mod 16)"

definition random_code :: "rng \<Rightarrow> string" where
  "random_code g =
     [upper_hex_digit (unat (g 0) div 16), upper_hex_digit (unat (g 0) mod 16),
      upper_hex_digit (unat (g 1) div 16), upper_hex_digit (unat (g 1) mod 16),
      upper_hex_digit (unat (g 2) div 16)]"

text \<open>The character class \<^verbatim>\<open>[0-9A-F]\<close>.\<close>

definition upper_hex :: "char \<Rightarrow> bool" where
  "upper_hex c = (c \<in> set ''0123456789ABCDEF'')"

text \<open>\<open>t\<close> occurs in \<open>s\<close> as a substring, letter case ignored.\<close>

definition contains_ci :: "string \<Rightarrow> string \<Rightarrow> bool" where
  "contains_ci s t = sublist (toLowerCase t) (toLowerCase s)"

definition like_special :: "char \<Rightarrow> bool" where
  "like_special c = (c = CHR ''%'' \<or> c = CHR ''_'' \<or> c = CHR 0x5C)"

definition created_desc :: "link list \<Rightarrow> bool" where
  "created_desc ls = sorted_wrt (\<lambda>a b. created_at b \<le> created_at a) ls"

subsection \<open>Concrete stores and random sources used in the examples\<close>

definition link_abc :: link where
  "link_abc = \<lparr>link_id = 1, code = ''abc'', target_url = ''https://example.com'', clicks = 0,
                last_clicked_at = None, created_at = 10, updated_at = 10\<rparr>"

definition link_D2FD3 :: link where
  "link_D2FD3 = \<lparr>link_id = 1, code = ''D2FD3'', target_url = ''https://first.example'', clicks = 4,
                  last_clicked_at = Some 12, created_at = 10, updated_at = 12\<rparr>"

definition db_empty :: db where
  "db_empty = \<lparr>rows = [], next_id = 1, code_unique = True\<rparr>"

definition db_abc :: "bool \<Rightarrow> db" where
  "db_abc uq = \<lparr>rows = [link_abc], next_id = 2, code_unique = uq\<rparr>"

definition link_xyz :: link where
  "link_xyz = \<lparr>link_id = 2, code = ''xyz'', target_url = ''http://Example.org/Page'', clicks = 7,
                last_clicked_at = Some 25, created_at = 20, updated_at = 25\<rparr>"

definition db_two :: db where
  "db_two = \<lparr>rows = [link_abc, link_xyz], next_id = 3, code_unique = True\<rparr>"

definition db_D2FD3 :: db where
  "db_D2FD3 = \<lparr>rows = [link_D2FD3], next_id = 2, code_unique = True\<rparr>"

definition db_true :: db where
  "db_true = \<lparr>rows = [\<lparr>link_id = 1, code = ''true'', target_url = ''https://example.com'', clicks = 0,
                       last_clicked_at = None, created_at = 10, updated_at = 10\<rparr>],
              next_id = 2, code_unique = True\<rparr>"

text \<open>A random source whose first three bytes are D2 FD 3A and whose later bytes are all 11.\<close>

definition rng_D2FD3 :: rng where
  "rng_D2FD3 = (\<lambda>i. if i = 0 then 0xD2 else if i = 1 then 0xFD else if i = 2 then 0x3A else 0x11)"

section \<open>Facts about the building blocks\<close>

lemma hex_chars_alnum: "\<forall>c \<in> set ''0123456789abcdef''. is_alnum (upper_char c)"
  by (simp add: is_alnum_def upper_char_def is_lower_def is_upper_def is_digit_def)

lemma hex_digit_upper_alnum: "is_alnum (upper_char (hex_digit n))"
proof -
  have "hex_digit n \<in> set ''0123456789abcdef''"
    unfolding hex_digit_def by (rule nth_mem) simp
  with hex_chars_alnum show ?thesis by blast
qed

lemma upper_hex_table: "map upper_char ''0123456789abcdef'' = ''0123456789ABCDEF''"
  by code_simp

lemma hex_digit_upper: "upper_char (hex_digit n) = upper_hex_digit n"
proof -
  have "n mod 16 < length ''0123456789abcdef''" by simp
  then have "upper_char (''0123456789abcdef'' ! (n mod 16)) =
             map upper_char ''0123456789abcdef'' ! (n mod 16)"
    by (rule nth_map [symmetric])
  then show ?thesis
    by (simp only: hex_digit_def upper_hex_digit_def upper_hex_table)
qed

lemma upper_hex_digit_class: "upper_hex (upper_hex_digit n)"
  unfolding upper_hex_def upper_hex_digit_def by (rule nth_mem) simp

lemma random_code_upper_hex: "list_all upper_hex (random_code g)"
  by (simp add: random_code_def upper_hex_digit_class)

lemma randomBytes_3: "randomBytes 3 g = ([g 0, g 1, g 2], \<lambda>i. g (i + 3))"
  by (simp add: randomBytes_def upt_rec eval_nat_numeral)

lemma generateShortCode_eq:
  "generateShortCode g =
     (map upper_char [hex_digit (unat (g 0) div 16), hex_digit (unat (g 0) mod 16),
                      hex_digit (unat (g 1) div 16), hex_digit (unat (g 1) mod 16),
                      hex_digit (unat (g 2) div 16)],
      \<lambda>i. g (i + 3))"
  by (simp add: generateShortCode_def randomBytes_3 toHex_def toUpperCase_def slice_def)

lemma generateShortCode_random_code: "generateShortCode g = (random_code g, \<lambda>i. g (i + 3))"
  by (simp add: generateShortCode_eq random_code_def hex_digit_upper)

lemma generateShortCode_length: "length (fst (generateShortCode g)) = 5"
  by (simp add: generateShortCode_eq)

lemma generateShortCode_alnum: "list_all is_alnum (fst (generateShortCode g))"
  by (simp add: generateShortCode_eq hex_digit_upper_alnum)

lemma generateShortCode_rng: "snd (generateShortCode g) = (\<lambda>i. g (i + 3))"
  by (simp add: generateShortCode_eq)

lemma code_rejected_iff: "code_rejected (JStr c) \<longleftrightarrow> \<not> code_format c"
  by (cases c) (auto simp: code_rejected_def regex_alnum_plus_def code_format_def)

lemma generateShortCode_accepted: "\<not> code_rejected (JStr (fst (generateShortCode g)))"
  using generateShortCode_length [of g] generateShortCode_alnum [of g]
  by (simp add: code_rejected_iff code_format_def)

lemma startsWith_prefix: "startsWith s p \<longleftrightarrow> prefix p s"
  by (metis startsWith_def prefix_def append_eq_conv_conj append_take_drop_id)

lemma target_url_rejected_iff:
  "target_url_rejected t \<longleftrightarrow> (\<forall>u. t = JStr u \<longrightarrow> \<not> prefix ''http'' u)"
  by (cases t) (auto simp: target_url_rejected_def startsWith_prefix)

lemma prefix_http_accepted: "prefix ''http'' u \<Longrightarrow> \<not> target_url_rejected (JStr u)"
  by (simp add: target_url_rejected_iff)

lemma lower_case_scheme_prefix: "prefix ''http:'' u \<or> prefix ''https:'' u \<Longrightarrow> prefix ''http'' u"
  by (auto simp: prefix_def)

lemma insert_link_free:
  "select_by_code d c = [] \<Longrightarrow>
   insert_link d now c u =
     Inr (new_row d now c u, d\<lparr>rows := rows d @ [new_row d now c u], next_id := Suc (next_id d)\<rparr>)"
  by (simp add: insert_link_def)

lemma create_link_accepted:
  "\<not> target_url_rejected (JStr u) \<Longrightarrow>
   create_link g d now \<lparr>body_target_url = JStr u, body_custom_code = cc\<rparr> =
     (case choose_code cc g of
        (c, g') \<Rightarrow>
          if code_rejected c
          then (Response 400 (ErrorBody ''Custom code must be 1-8 alphanumeric chars''), d, g')
          else if select_by_code d (pg_text c) \<noteq> []
          then (Response 409 (ErrorBody ''Code already exists. Try another.''), d, g')
          else (Response 201 (LinkBody (new_row d now (pg_text c) u)),
                d\<lparr>rows := rows d @ [new_row d now (pg_text c) u], next_id := Suc (next_id d)\<rparr>, g'))"
  by (auto simp: create_link_def insert_link_free split: prod.splits)

lemma create_link_rejected_target:
  "target_url_rejected t \<Longrightarrow>
   create_link g d now \<lparr>body_target_url = t, body_custom_code = cc\<rparr> =
     (Response 400 (ErrorBody ''Valid target_url is required''), d, g)"
  by (simp add: create_link_def)

lemma choose_code_custom: "c \<noteq> [] \<Longrightarrow> choose_code (JStr c) g = (JStr c, g)"
  by (simp add: choose_code_def)

lemma choose_code_falsy: "\<not> truthy cc \<Longrightarrow> choose_code cc g = (JStr (random_code g), \<lambda>i. g (i + 3))"
  by (simp add: choose_code_def generateShortCode_random_code)

lemma create_link_generated:
  assumes "\<not> target_url_rejected (JStr u)" and "\<not> truthy cc"
  shows "create_link g d now \<lparr>body_target_url = JStr u, body_custom_code = cc\<rparr> =
     (if select_by_code d (random_code g) \<noteq> []
      then (Response 409 (ErrorBody ''Code already exists. Try another.''), d, \<lambda>i. g (i + 3))
      else (Response 201 (LinkBody (new_row d now (random_code g) u)),
            d\<lparr>rows := rows d @ [new_row d now (random_code g) u], next_id := Suc (next_id d)\<rparr>,
            \<lambda>i. g (i + 3)))"
proof -
  have "\<not> code_rejected (JStr (random_code g))"
    using generateShortCode_accepted [of g] by (simp add: generateShortCode_random_code)
  then show ?thesis
    by (simp add: create_link_accepted [OF assms(1)] choose_code_falsy [OF assms(2)])
qed

lemma select_by_code_member: "l \<in> set (rows d) \<Longrightarrow> select_by_code d (code l) \<noteq> []"
  by (auto simp: select_by_code_def filter_empty_conv)

lemma code_format_nonempty: "code_format c \<Longrightarrow> c \<noteq> []"
  by (auto simp: code_format_def)

lemma select_by_code_append:
  "select_by_code (d\<lparr>rows := rows d @ [l], next_id := n\<rparr>) c =
     select_by_code d c @ (if code l = c then [l] else [])"
  by (simp add: select_by_code_def)

section \<open>\<^verbatim>\<open>POST /api/links\<close>: validation\<close>

text \<open>
  C7, as stated, fails in both directions. The string \<^verbatim>\<open>httpfoo\<close> does not begin with an HTTP
  scheme, yet the request is answered 201 and a record with that target is written; and
  \<^verbatim>\<open>HTTP://EXAMPLE.COM\<close> begins with the scheme \<^verbatim>\<open>http\<close>, yet it is answered 400.
\<close>

theorem target_url_validation_counterexample:
  "\<not> begins_with_http_scheme ''httpfoo'' \<and>
   status (fst (create_link rng_D2FD3 db_empty 5
       \<lparr>body_target_url = JStr ''httpfoo'', body_custom_code = JUndefined\<rparr>)) = 201 \<and>
   map target_url (rows (fst (snd (create_link rng_D2FD3 db_empty 5
       \<lparr>body_target_url = JStr ''httpfoo'', body_custom_code = JUndefined\<rparr>)))) = [''httpfoo''] \<and>
   begins_with_http_scheme ''HTTP://EXAMPLE.COM'' \<and>
   fst (create_link rng_D2FD3 db_empty 5
       \<lparr>body_target_url = JStr ''HTTP://EXAMPLE.COM'', body_custom_code = JUndefined\<rparr>) =
     Response 400 (ErrorBody ''Valid target_url is required'')"
  by code_simp

text \<open>
  C7, amended. A create request whose \<open>target_url\<close> is not a string, or is a string that does
  not begin with the four lower-case characters \<^verbatim>\<open>http\<close> (the empty string is one), is
  answered 400 (InvalidInput) with the store and the random source untouched. A request
  whose \<open>target_url\<close> begins with \<^verbatim>\<open>http\<close>, in particular with a lower-case \<^verbatim>\<open>http:\<close> or \<^verbatim>\<open>https:\<close>,
  and that has no custom code or a custom code in the code format, passes validation: the
  answer is 201 or 409, never 400.
\<close>

theorem target_url_validation:
  "((\<forall>u. t \<noteq> JStr u) \<or> t = JStr [] \<or> (\<exists>u. t = JStr u \<and> \<not> prefix ''http'' u) \<longrightarrow>
      create_link g d now \<lparr>body_target_url = t, body_custom_code = cc\<rparr> =
        (Response 400 (ErrorBody ''Valid target_url is required''), d, g)) \<and>
   ((\<exists>u. t = JStr u \<and> (prefix ''http'' u \<or> prefix ''http:'' u \<or> prefix ''https:'' u)) \<and>
    (cc = JUndefined \<or> (\<exists>c. cc = JStr c \<and> code_format c)) \<longrightarrow>
      status (fst (create_link g d now \<lparr>body_target_url = t, body_custom_code = cc\<rparr>)) \<in> {201, 409})"
proof (rule conjI; rule impI)
  assume "(\<forall>u. t \<noteq> JStr u) \<or> t = JStr [] \<or> (\<exists>u. t = JStr u \<and> \<not> prefix ''http'' u)"
  then have "target_url_rejected t"
    by (auto simp: target_url_rejected_iff)
  then show "create_link g d now \<lparr>body_target_url = t, body_custom_code = cc\<rparr> =
        (Response 400 (ErrorBody ''Valid target_url is required''), d, g)"
    by (rule create_link_rejected_target)
next
  assume a: "(\<exists>u. t = JStr u \<and> (prefix ''http'' u \<or> prefix ''http:'' u \<or> prefix ''https:'' u)) \<and>
    (cc = JUndefined \<or> (\<exists>c. cc = JStr c \<and> code_format c))"
  then obtain u where t: "t = JStr u"
    and u: "prefix ''http'' u \<or> prefix ''http:'' u \<or> prefix ''https:'' u"
    by blast
  from u have "prefix ''http'' u"
    using lower_case_scheme_prefix [of u] by blast
  then have acc: "\<not> target_url_rejected (JStr u)"
    by (rule prefix_http_accepted)
  from a have "cc = JUndefined \<or> (\<exists>c. cc = JStr c \<and> code_format c)" by simp
  then show "status (fst (create_link g d now \<lparr>body_target_url = t, body_custom_code = cc\<rparr>)) \<in> {201, 409}"
  proof
    assume "cc = JUndefined"
    then have "\<not> truthy cc" by simp
    then show ?thesis
      by (simp add: t create_link_generated [OF acc])
  next
    assume "\<exists>c. cc = JStr c \<and> code_format c"
    then obtain c where cc: "cc = JStr c" and f: "code_format c" by blast
    have "c \<noteq> []" using f by (rule code_format_nonempty)
    moreover have "\<not> code_rejected (JStr c)" using f by (simp add: code_rejected_iff)
    ultimately show ?thesis
      by (simp add: t cc create_link_accepted [OF acc] choose_code_custom)
  qed
qed

theorem target_url_validation_witness:
  "create_link rng_D2FD3 db_empty 5 \<lparr>body_target_url = JStr ''ftp://example.com'', body_custom_code = JUndefined\<rparr> =
        (Response 400 (ErrorBody ''Valid target_url is required''), db_empty, rng_D2FD3) \<and>
   create_link rng_D2FD3 db_empty 5 \<lparr>body_target_url = JNum ''42'', body_custom_code = JUndefined\<rparr> =
        (Response 400 (ErrorBody ''Valid target_url is required''), db_empty, rng_D2FD3) \<and>
   status (fst (create_link rng_D2FD3 db_empty 5 \<lparr>body_target_url = JStr ''https://example.com'', body_custom_code = JStr ''abc''\<rparr>)) \<in> {201, 409} \<and>
   status (fst (create_link rng_D2FD3 db_empty 5 \<lparr>body_target_url = JStr ''httpfoo'', body_custom_code = JUndefined\<rparr>)) \<in> {201, 409}"
proof -
  have 1: "\<not> prefix ''http'' ''ftp://example.com''" by simp
  have 2: "prefix ''https:'' ''https://example.com''" by simp
  have 3: "code_format ''abc''" by code_simp
  have 4: "prefix ''http'' ''httpfoo''" by simp
  from 1 target_url_validation [where t = "JStr ''ftp://example.com''" and cc = JUndefined
      and g = rng_D2FD3 and d = db_empty and now = 5]
  have a: "create_link rng_D2FD3 db_empty 5 \<lparr>body_target_url = JStr ''ftp://example.com'', body_custom_code = JUndefined\<rparr> =
        (Response 400 (ErrorBody ''Valid target_url is required''), db_empty, rng_D2FD3)"
    by blast
  from target_url_validation [where t = "JNum ''42''" and cc = JUndefined
      and g = rng_D2FD3 and d = db_empty and now = 5]
  have b: "create_link rng_D2FD3 db_empty 5 \<lparr>body_target_url = JNum ''42'', body_custom_code = JUndefined\<rparr> =
        (Response 400 (ErrorBody ''Valid target_url is required''), db_empty, rng_D2FD3)"
    by simp
  from 2 3 target_url_validation [where t = "JStr ''https://example.com''" and cc = "JStr ''abc''"
      and g = rng_D2FD3 and d = db_empty and now = 5]
  have c: "status (fst (create_link rng_D2FD3 db_empty 5 \<lparr>body_target_url = JStr ''https://example.com'', body_custom_code = JStr ''abc''\<rparr>)) \<in> {201, 409}"
    by blast
  from 4 target_url_validation [where t = "JStr ''httpfoo''" and cc = JUndefined
      and g = rng_D2FD3 and d = db_empty and now = 5]
  have e: "status (fst (create_link rng_D2FD3 db_empty 5 \<lparr>body_target_url = JStr ''httpfoo'', body_custom_code = JUndefined\<rparr>)) \<in> {201, 409}"
    by blast
  from a b c e show ?thesis by simp
qed

text \<open>
  C10. A create request whose \<open>custom_code\<close> is the empty string is the request without a
  custom code: the two give the same response, store and random source, and it is never
  rejected for the code format. With an accepted target URL the handler draws three random
  bytes and uses their first five upper-case hexadecimal digits as the code: when that code
  is free the link is created under it (201), when it is in use the answer is 409; either
  way the random source has moved on by exactly the three bytes.
\<close>

theorem empty_custom_code_generates:
  "create_link g d now \<lparr>body_target_url = t, body_custom_code = JStr ''''\<rparr> =
     create_link g d now \<lparr>body_target_url = t, body_custom_code = JUndefined\<rparr> \<and>
   fst (create_link g d now \<lparr>body_target_url = t, body_custom_code = JStr ''''\<rparr>) \<noteq>
     Response 400 (ErrorBody ''Custom code must be 1-8 alphanumeric chars'') \<and>
   ((\<exists>u. t = JStr u \<and> prefix ''http'' u) \<and> select_by_code d (random_code g) = [] \<longrightarrow>
      (\<exists>l d'. create_link g d now \<lparr>body_target_url = t, body_custom_code = JStr ''''\<rparr> =
                 (Response 201 (LinkBody l), d', \<lambda>i. g (i + 3)) \<and>
               code l = random_code g \<and> rows d' = rows d @ [l])) \<and>
   ((\<exists>u. t = JStr u \<and> prefix ''http'' u) \<and> select_by_code d (random_code g) \<noteq> [] \<longrightarrow>
      create_link g d now \<lparr>body_target_url = t, body_custom_code = JStr ''''\<rparr> =
        (Response 409 (ErrorBody ''Code already exists. Try another.''), d, \<lambda>i. g (i + 3)))"
proof (cases "target_url_rejected t")
  case True
  then show ?thesis
    by (auto simp: create_link_rejected_target target_url_rejected_iff)
next
  case False
  then obtain u where t: "t = JStr u" by (auto simp: target_url_rejected_iff)
  have acc: "\<not> target_url_rejected (JStr u)" using False by (simp add: t)
  have e: "\<not> truthy (JStr '''')" and n: "\<not> truthy JUndefined" by simp_all
  show ?thesis
    by (simp add: t create_link_generated [OF acc e] create_link_generated [OF acc n] new_row_def)
qed

theorem empty_custom_code_generates_witness:
  "(\<exists>l d'. create_link rng_D2FD3 db_empty 5
              \<lparr>body_target_url = JStr ''https://example.com'', body_custom_code = JStr ''''\<rparr> =
              (Response 201 (LinkBody l), d', \<lambda>i. rng_D2FD3 (i + 3)) \<and>
            code l = ''D2FD3'' \<and> rows d' = rows db_empty @ [l]) \<and>
   (\<exists>l d'. create_link (\<lambda>i. rng_D2FD3 (i + 3)) db_D2FD3 6
              \<lparr>body_target_url = JStr ''https://example.com'', body_custom_code = JStr ''''\<rparr> =
              (Response 201 (LinkBody l), d', \<lambda>i. rng_D2FD3 (i + 3 + 3)) \<and>
            code l = ''11111'' \<and> rows d' = rows db_D2FD3 @ [l]) \<and>
   create_link rng_D2FD3 db_D2FD3 7
       \<lparr>body_target_url = JStr ''https://example.com'', body_custom_code = JStr ''''\<rparr> =
     (Response 409 (ErrorBody ''Code already exists. Try another.''), db_D2FD3, \<lambda>i. rng_D2FD3 (i + 3))"
proof -
  have u: "\<exists>u. JStr ''https://example.com'' = JStr u \<and> prefix ''http'' u" by simp
  have c1: "random_code rng_D2FD3 = ''D2FD3''" by code_simp
  have c2: "random_code (\<lambda>i. rng_D2FD3 (i + 3)) = ''11111''" by code_simp
  have f1: "select_by_code db_empty ''D2FD3'' = []" by code_simp
  have f2: "select_by_code db_D2FD3 ''11111'' = []" by code_simp
  have f3: "select_by_code db_D2FD3 ''D2FD3'' \<noteq> []" by code_simp
  from empty_custom_code_generates [where t = "JStr ''https://example.com''" and g = rng_D2FD3
      and d = db_empty and now = 5] u f1
  have a: "\<exists>l d'. create_link rng_D2FD3 db_empty 5
              \<lparr>body_target_url = JStr ''https://example.com'', body_custom_code = JStr ''''\<rparr> =
              (Response 201 (LinkBody l), d', \<lambda>i. rng_D2FD3 (i + 3)) \<and>
            code l = ''D2FD3'' \<and> rows d' = rows db_empty @ [l]"
    unfolding c1 by blast
  from empty_custom_code_generates [where t = "JStr ''https://example.com''"
      and g = "\<lambda>i. rng_D2FD3 (i + 3)" and d = db_D2FD3 and now = 6] u f2
  have b: "\<exists>l d'. create_link (\<lambda>i. rng_D2FD3 (i + 3)) db_D2FD3 6
              \<lparr>body_target_url = JStr ''https://example.com'', body_custom_code = JStr ''''\<rparr> =
              (Response 201 (LinkBody l), d', \<lambda>i. rng_D2FD3 (i + 3 + 3)) \<and>
            code l = ''11111'' \<and> rows d' = rows db_D2FD3 @ [l]"
    unfolding c2 by blast
  from empty_custom_code_generates [where t = "JStr ''https://example.com''" and g = rng_D2FD3
      and d = db_D2FD3 and now = 7] u f3
  have c: "create_link rng_D2FD3 db_D2FD3 7
       \<lparr>body_target_url = JStr ''https://example.com'', body_custom_code = JStr ''''\<rparr> =
     (Response 409 (ErrorBody ''Code already exists. Try another.''), db_D2FD3, \<lambda>i. rng_D2FD3 (i + 3))"
    unfolding c1 by blast
  from a b c show ?thesis by blast
qed

section \<open>\<^verbatim>\<open>POST /api/links\<close>: conflicts and the generated code\<close>

text \<open>
  C5. When the store holds a link with code \<open>X\<close> (in the code format), a create request with
  \<open>custom_code = X\<close> and an accepted target URL is answered 409 (CodeConflict), and the whole
  store, the existing record with it, is as before.
\<close>

theorem custom_code_conflict:
  assumes "l \<in> set (rows d)" and "code l = X" and "code_format X"
    and "prefix ''http'' u"
  shows "create_link g d now \<lparr>body_target_url = JStr u, body_custom_code = JStr X\<rparr> =
           (Response 409 (ErrorBody ''Code already exists. Try another.''), d, g)"
proof -
  have acc: "\<not> target_url_rejected (JStr u)"
    using assms(4) by (rule prefix_http_accepted)
  have ch: "choose_code (JStr X) g = (JStr X, g)"
    using assms(3) by (simp add: choose_code_custom code_format_nonempty)
  have ok: "\<not> code_rejected (JStr X)"
    using assms(3) by (simp add: code_rejected_iff)
  have taken: "select_by_code d X \<noteq> []"
    using select_by_code_member [OF assms(1)] assms(2) by simp
  show ?thesis
    by (simp add: create_link_accepted [OF acc] ch ok taken)
qed

theorem custom_code_conflict_witness:
  "create_link rng_D2FD3 (db_abc False) 20
       \<lparr>body_target_url = JStr ''http://other.example'', body_custom_code = JStr ''abc''\<rparr> =
     (Response 409 (ErrorBody ''Code already exists. Try another.''), db_abc False, rng_D2FD3)"
proof (rule custom_code_conflict [where l = link_abc])
  show "link_abc \<in> set (rows (db_abc False))" by (simp add: db_abc_def)
  show "code link_abc = ''abc''" by (simp add: link_abc_def)
  show "code_format ''abc''" by code_simp
  show "prefix ''http'' ''http://other.example''" by simp
qed

text \<open>
  C6, as stated, fails at the empty string: it violates the code format (its length is
  outside 1 to 8), yet the request is answered 201 and a record is written under a
  generated code.
\<close>

theorem malformed_custom_code_rejected_counterexample:
  "\<not> code_format '''' \<and>
   status (fst (create_link rng_D2FD3 db_empty 5
       \<lparr>body_target_url = JStr ''https://example.com'', body_custom_code = JStr ''''\<rparr>)) = 201 \<and>
   map code (rows (fst (snd (create_link rng_D2FD3 db_empty 5
       \<lparr>body_target_url = JStr ''https://example.com'', body_custom_code = JStr ''''\<rparr>)))) = [''D2FD3''] \<and>
   rows db_empty = []"
  by code_simp

text \<open>
  The handler does not test the type of \<open>custom_code\<close>. A number has no \<^verbatim>\<open>length\<close> and an array
  has the length of its element list, and the pattern is tested on the printed value, so
  the number 123456789 and the array \<^verbatim>\<open>["abcdefghi"]\<close> pass both tests although they print
  nine characters, and the store receives the driver's text of the value. (The store of the
  model takes a code of any length; a column too narrow for it would make the INSERT fail
  and the answer 500.)
\<close>

lemma custom_code_of_other_type:
  "\<not> code_rejected (JNum ''123456789'') \<and>
   \<not> code_rejected (JArr [JStr ''abcdefghi'']) \<and>
   map code (rows (fst (snd (create_link rng_D2FD3 db_empty 5
       \<lparr>body_target_url = JStr ''https://example.com'', body_custom_code = JNum ''123456789''\<rparr>)))) =
     [''123456789''] \<and>
   status (fst (create_link rng_D2FD3 db_empty 5
       \<lparr>body_target_url = JStr ''https://example.com'', body_custom_code = JArr [JStr ''abcdefghi'']\<rparr>)) = 201"
  by code_simp

text \<open>
  C6, amended. For every \<open>custom_code\<close> that is a non-empty string and violates the code
  format (longer than 8 characters, or with a character outside \<^verbatim>\<open>[A-Za-z0-9]\<close>), create is
  answered 400 (InvalidInput), whatever the target URL, and the store and the random source
  are as before.
\<close>

theorem malformed_custom_code_rejected:
  assumes "c \<noteq> []" and "\<not> code_format c"
  shows "status (fst (create_link g d now \<lparr>body_target_url = t, body_custom_code = JStr c\<rparr>)) = 400 \<and>
         snd (create_link g d now \<lparr>body_target_url = t, body_custom_code = JStr c\<rparr>) = (d, g)"
proof (cases "target_url_rejected t")
  case True
  then show ?thesis by (simp add: create_link_rejected_target)
next
  case False
  then obtain u where t: "t = JStr u" by (auto simp: target_url_rejected_iff)
  have "code_rejected (JStr c)" using assms(2) by (simp add: code_rejected_iff)
  with False assms(1) show ?thesis
    by (simp add: t create_link_accepted choose_code_custom)
qed

theorem malformed_custom_code_rejected_witness:
  "(status (fst (create_link rng_D2FD3 db_empty 5
       \<lparr>body_target_url = JStr ''https://example.com'', body_custom_code = JStr ''abcdefghi''\<rparr>)) = 400 \<and>
    snd (create_link rng_D2FD3 db_empty 5
       \<lparr>body_target_url = JStr ''https://example.com'', body_custom_code = JStr ''abcdefghi''\<rparr>) = (db_empty, rng_D2FD3)) \<and>
   (status (fst (create_link rng_D2FD3 db_empty 5
       \<lparr>body_target_url = JStr ''https://example.com'', body_custom_code = JStr ''a-b''\<rparr>)) = 400 \<and>
    snd (create_link rng_D2FD3 db_empty 5
       \<lparr>body_target_url = JStr ''https://example.com'', body_custom_code = JStr ''a-b''\<rparr>) = (db_empty, rng_D2FD3))"
proof (rule conjI)
  have "\<not> code_format ''abcdefghi''" by code_simp
  then show "status (fst (create_link rng_D2FD3 db_empty 5
       \<lparr>body_target_url = JStr ''https://example.com'', body_custom_code = JStr ''abcdefghi''\<rparr>)) = 400 \<and>
    snd (create_link rng_D2FD3 db_empty 5
       \<lparr>body_target_url = JStr ''https://example.com'', body_custom_code = JStr ''abcdefghi''\<rparr>) = (db_empty, rng_D2FD3)"
    by (intro malformed_custom_code_rejected) simp_all
  have "\<not> code_format ''a-b''" by code_simp
  then show "status (fst (create_link rng_D2FD3 db_empty 5
       \<lparr>body_target_url = JStr ''https://example.com'', body_custom_code = JStr ''a-b''\<rparr>)) = 400 \<and>
    snd (create_link rng_D2FD3 db_empty 5
       \<lparr>body_target_url = JStr ''https://example.com'', body_custom_code = JStr ''a-b''\<rparr>) = (db_empty, rng_D2FD3)"
    by (intro malformed_custom_code_rejected) simp_all
qed

text \<open>
  C8, as stated, fails when the generated code is already in use: the request with a valid
  target URL and no custom code is answered 409, and a get with the generated code returns
  the older link's target URL.
\<close>

theorem generated_code_collision_counterexample:
  "prefix ''http'' ''https://second.example'' \<and>
   status (fst (create_link rng_D2FD3 db_D2FD3 20
       \<lparr>body_target_url = JStr ''https://second.example'', body_custom_code = JUndefined\<rparr>)) = 409 \<and>
   get_link (fst (snd (create_link rng_D2FD3 db_D2FD3 20
       \<lparr>body_target_url = JStr ''https://second.example'', body_custom_code = JUndefined\<rparr>)))
       (fst (generateShortCode rng_D2FD3)) =
     Response 200 (StatsBody \<lparr>shortCode = ''D2FD3'', targetUrl = ''https://first.example'',
                              totalClicks = 4, lastClickedAt = Some 12\<rparr>)"
  by code_simp

text \<open>
  C8, amended. For every target URL the handler accepts, a create request without custom
  code whose generated code is not in use succeeds (201). The code returned is the
  generated one: the first five upper-case hexadecimal digits of three random bytes, so five
  characters of \<^verbatim>\<open>[0-9A-F]\<close>, in the code format. The new link has no clicks, and a get with
  that code returns the target URL supplied.
\<close>

theorem create_get_round_trip:
  assumes "prefix ''http'' u"
    and "select_by_code d (fst (generateShortCode g)) = []"
  shows "\<exists>l d'.
           create_link g d now \<lparr>body_target_url = JStr u, body_custom_code = JUndefined\<rparr> =
             (Response 201 (LinkBody l), d', \<lambda>i. g (i + 3)) \<and>
           code l = fst (generateShortCode g) \<and> code l = random_code g \<and>
           list_all upper_hex (code l) \<and> code_format (code l) \<and> length (code l) = 5 \<and>
           target_url l = u \<and> clicks l = 0 \<and> last_clicked_at l = None \<and>
           get_link d' (code l) =
             Response 200 (StatsBody \<lparr>shortCode = code l, targetUrl = u, totalClicks = 0,
                                      lastClickedAt = None\<rparr>)"
proof -
  have acc: "\<not> target_url_rejected (JStr u)"
    using assms(1) by (rule prefix_http_accepted)
  have gen: "fst (generateShortCode g) = random_code g"
    by (simp add: generateShortCode_random_code)
  have fmt: "code_format (random_code g)"
    using generateShortCode_accepted [of g] by (simp add: code_rejected_iff gen)
  have len: "length (random_code g) = 5"
    by (simp add: random_code_def)
  have free: "select_by_code d (random_code g) = []"
    using assms(2) by (simp add: gen)
  have n: "\<not> truthy JUndefined" by simp
  have cr: "create_link g d now \<lparr>body_target_url = JStr u, body_custom_code = JUndefined\<rparr> =
          (Response 201 (LinkBody (new_row d now (random_code g) u)),
           d\<lparr>rows := rows d @ [new_row d now (random_code g) u], next_id := Suc (next_id d)\<rparr>,
           \<lambda>i. g (i + 3))"
    by (simp add: create_link_generated [OF acc n] free)
  have gt: "get_link (d\<lparr>rows := rows d @ [new_row d now (random_code g) u], next_id := Suc (next_id d)\<rparr>)
              (random_code g) =
          Response 200 (StatsBody \<lparr>shortCode = random_code g, targetUrl = u, totalClicks = 0,
                                   lastClickedAt = None\<rparr>)"
    by (simp add: get_link_def select_by_code_append free new_row_def)
  show ?thesis
    using cr gt fmt len random_code_upper_hex [of g] by (simp add: gen new_row_def)
qed

theorem create_get_round_trip_witness:
  "\<exists>l d'.
     create_link rng_D2FD3 (db_abc True) 20
         \<lparr>body_target_url = JStr ''https://second.example'', body_custom_code = JUndefined\<rparr> =
       (Response 201 (LinkBody l), d', \<lambda>i. rng_D2FD3 (i + 3)) \<and>
     code l = ''D2FD3'' \<and> code l = random_code rng_D2FD3 \<and>
     list_all upper_hex (code l) \<and> code_format (code l) \<and> length (code l) = 5 \<and>
     target_url l = ''https://second.example'' \<and> clicks l = 0 \<and> last_clicked_at l = None \<and>
     get_link d' (code l) =
       Response 200 (StatsBody \<lparr>shortCode = code l, targetUrl = ''https://second.example'',
                                totalClicks = 0, lastClickedAt = None\<rparr>)"
proof -
  have 1: "prefix ''http'' ''https://second.example''" by simp
  have 2: "fst (generateShortCode rng_D2FD3) = ''D2FD3''" by code_simp
  have 3: "select_by_code (db_abc True) (fst (generateShortCode rng_D2FD3)) = []"
    unfolding 2 by code_simp
  show ?thesis
    using create_get_round_trip [OF 1 3, of 20] unfolding 2 .
qed

text \<open>
  C4, as stated, fails: when the generated candidate collides, the handler answers 409 with
  the message of a code conflict at once. It has drawn one candidate only, although the
  next candidate of the random source (\<^verbatim>\<open>11111\<close>) is free.
\<close>

theorem generated_collision_no_retry_counterexample:
  "fst (create_link rng_D2FD3 db_D2FD3 20
       \<lparr>body_target_url = JStr ''https://second.example'', body_custom_code = JUndefined\<rparr>) =
     Response 409 (ErrorBody ''Code already exists. Try another.'') \<and>
   fst (generateShortCode (snd (snd (create_link rng_D2FD3 db_D2FD3 20
       \<lparr>body_target_url = JStr ''https://second.example'', body_custom_code = JUndefined\<rparr>)))) = ''11111'' \<and>
   select_by_code db_D2FD3 ''11111'' = []"
  by code_simp

text \<open>
  C4, amended. For every create request without custom code and with an accepted target
  URL, when the generated candidate is in use the handler answers 409 (the response of a
  code conflict) after that single candidate: the store is as before and the random source
  has moved on by the three bytes of one draw. There is no retry.
\<close>

theorem generated_collision_no_retry:
  assumes "prefix ''http'' u"
    and "select_by_code d (fst (generateShortCode g)) \<noteq> []"
  shows "create_link g d now \<lparr>body_target_url = JStr u, body_custom_code = JUndefined\<rparr> =
           (Response 409 (ErrorBody ''Code already exists. Try another.''), d, \<lambda>i. g (i + 3))"
proof -
  have acc: "\<not> target_url_rejected (JStr u)"
    using assms(1) by (rule prefix_http_accepted)
  have taken: "select_by_code d (random_code g) \<noteq> []"
    using assms(2) by (simp add: generateShortCode_random_code)
  have n: "\<not> truthy JUndefined" by simp
  show ?thesis
    by (simp add: create_link_generated [OF acc n] taken)
qed

theorem generated_collision_no_retry_witness:
  "create_link rng_D2FD3 db_D2FD3 20
       \<lparr>body_target_url = JStr ''https://second.example'', body_custom_code = JUndefined\<rparr> =
     (Response 409 (ErrorBody ''Code already exists. Try another.''), db_D2FD3,
      \<lambda>i. rng_D2FD3 (i + 3))"
proof (rule generated_collision_no_retry)
  show "prefix ''http'' ''https://second.example''" by simp
  have "fst (generateShortCode rng_D2FD3) = ''D2FD3''" by code_simp
  moreover have "select_by_code db_D2FD3 ''D2FD3'' \<noteq> []" by code_simp
  ultimately show "select_by_code db_D2FD3 (fst (generateShortCode rng_D2FD3)) \<noteq> []" by simp
qed

lemma filter_code_map_update:
  assumes "\<And>l. code (f l) = code l"
  shows "filter (\<lambda>l. code l = c') (map (\<lambda>l. if code l = c then f l else l) xs) =
         (if c' = c then map f (filter (\<lambda>l. code l = c) xs) else filter (\<lambda>l. code l = c') xs)"
  by (induction xs) (auto simp: assms)

lemma select_after_update_set_clicks:
  "select_by_code (snd (update_set_clicks d now n c)) c' =
     (if c' = c
      then map (\<lambda>l. l\<lparr>clicks := n, last_clicked_at := Some now, updated_at := now\<rparr>) (select_by_code d c)
      else select_by_code d c')"
  unfolding update_set_clicks_def select_by_code_def
  by (simp add: filter_code_map_update [where f = "\<lambda>l. l\<lparr>clicks := n, last_clicked_at := Some now, updated_at := now\<rparr>"])

lemma select_after_update_touch:
  "select_by_code (snd (update_touch d now c)) c' =
     (if c' = c
      then map (\<lambda>l. l\<lparr>clicks := clicks l, last_clicked_at := Some now, updated_at := now\<rparr>)
             (select_by_code d c)
      else select_by_code d c')"
  unfolding update_touch_def select_by_code_def
  by (simp add: filter_code_map_update [where f = "\<lambda>l. l\<lparr>clicks := clicks l, last_clicked_at := Some now, updated_at := now\<rparr>"])

lemma total_clicks_increment:
  assumes "total_clicks d c = Some k"
  shows "total_clicks (snd (increment d now c)) c = Some (k + 1)"
proof -
  from assms obtain l ls where sel: "select_by_code d c = l # ls" and k: "clicks l = k"
    by (auto simp: total_clicks_def split: list.splits)
  have ids: "fst (update_set_clicks d now (k + 1) c) \<noteq> []"
    by (simp add: update_set_clicks_def sel)
  have "snd (increment d now c) = snd (update_set_clicks d now (k + 1) c)"
    using ids by (simp add: increment_def sel k split: prod.splits)
  then show ?thesis
    by (simp add: total_clicks_def select_after_update_set_clicks sel)
qed

lemma increment_response:
  assumes "total_clicks d c = Some k"
  shows "fst (increment d now c) = Response 200 (IncrementBody ''Clicks incremented successfully'' (k + 1))"
proof -
  from assms obtain l ls where sel: "select_by_code d c = l # ls" and k: "clicks l = k"
    by (auto simp: total_clicks_def split: list.splits)
  show ?thesis
    by (simp add: increment_def sel k update_set_clicks_def)
qed

lemma increment_as_steps:
  "(case step d now1 (IncrementSelect c) of (t, d1) \<Rightarrow> step d1 now t) =
   (case increment d now c of (r, d') \<Rightarrow> (Done r, d'))"
  by (simp add: increment_def split: list.splits prod.splits)

lemma create_as_steps:
  "(case start g (ReqCreate b) of
      (t, g') \<Rightarrow> (case step d now1 t of (t1, d1) \<Rightarrow> (case step d1 now t1 of (t2, d2) \<Rightarrow> (t2, d2, g')))) =
   (case create_link g d now b of (r, d', g') \<Rightarrow> (Done r, d', g'))"
  by (auto simp: start_def create_link_def split: jsval.splits prod.splits sum.splits)

lemma redirect_as_steps:
  "(case start g (ReqRedirect c) of (t, g') \<Rightarrow> step d now t) =
   (case redirect d now c of (r, d') \<Rightarrow> (Done r, d'))"
  by (simp add: start_def)

lemma redirect_clicks_unchanged:
  "map clicks (rows (snd (redirect d now c))) = map clicks (rows d)"
  by (auto simp: redirect_def update_touch_def split: list.splits)

lemma requests_code_accepted:
  assumes "requests_code X b"
  obtains u where "b = \<lparr>body_target_url = JStr u, body_custom_code = JStr X\<rparr>"
    and "\<not> target_url_rejected (JStr u)"
proof -
  from assms obtain u where u: "body_target_url b = JStr u" "prefix ''http'' u"
    and cc: "body_custom_code b = JStr X"
    by (auto simp: requests_code_def split: jsval.splits)
  have "b = \<lparr>body_target_url = JStr u, body_custom_code = JStr X\<rparr>"
    using u(1) cc by (cases b) simp
  moreover have "\<not> target_url_rejected (JStr u)"
    using u(2) by (rule prefix_http_accepted)
  ultimately show thesis by (rule that)
qed

lemma create_link_taken:
  assumes "code_format X" and "requests_code X b" and "select_by_code d X \<noteq> []"
  shows "create_link g d now b = (Response 409 (ErrorBody ''Code already exists. Try another.''), d, g)"
proof -
  from assms(2) obtain u where b: "b = \<lparr>body_target_url = JStr u, body_custom_code = JStr X\<rparr>"
    and acc: "\<not> target_url_rejected (JStr u)"
    by (rule requests_code_accepted)
  have "\<not> code_rejected (JStr X)" using assms(1) by (simp add: code_rejected_iff)
  then show ?thesis
    using assms(1,3)
    by (simp add: b create_link_accepted [OF acc] choose_code_custom code_format_nonempty)
qed

lemma create_link_free:
  assumes "code_format X" and "requests_code X b" and "select_by_code d X = []"
  shows "\<exists>l d'. create_link g d now b = (Response 201 (LinkBody l), d', g) \<and>
           select_by_code d' X = [l]"
proof -
  from assms(2) obtain u where b: "b = \<lparr>body_target_url = JStr u, body_custom_code = JStr X\<rparr>"
    and acc: "\<not> target_url_rejected (JStr u)"
    by (rule requests_code_accepted)
  have "\<not> code_rejected (JStr X)" using assms(1) by (simp add: code_rejected_iff)
  then show ?thesis
    using assms(1,3)
    by (simp add: b create_link_accepted [OF acc] choose_code_custom code_format_nonempty
        select_by_code_append new_row_def)
qed

lemma create_links_taken:
  assumes "code_format X" and "select_by_code d X \<noteq> []"
  shows "list_all (\<lambda>rq. requests_code X (snd rq)) reqs \<Longrightarrow>
         create_links g d reqs =
           (replicate (length reqs) (Response 409 (ErrorBody ''Code already exists. Try another.'')), d, g)"
proof (induction reqs)
  case Nil
  then show ?case by simp
next
  case (Cons rq reqs)
  obtain now b where rq: "rq = (now, b)" by (cases rq)
  from Cons.prems have b: "requests_code X b" and rest: "list_all (\<lambda>rq. requests_code X (snd rq)) reqs"
    by (simp_all add: rq)
  show ?case
    by (simp add: rq create_link_taken [OF assms(1) b assms(2)] Cons.IH [OF rest])
qed

lemma like_match_percent_only: "like_match [CHR ''%''] s"
  by (induction s) simp_all

lemma like_match_percent:
  "like_match (CHR ''%'' # ps) s \<longleftrightarrow> (\<exists>k\<le>length s. like_match ps (drop k s))"
proof (induction s)
  case Nil
  then show ?case by simp
next
  case (Cons x xs)
  have "(\<exists>k\<le>length (x # xs). like_match ps (drop k (x # xs))) \<longleftrightarrow>
        like_match ps (x # xs) \<or> (\<exists>k\<le>length xs. like_match ps (drop k xs))"
  proof
    assume "\<exists>k\<le>length (x # xs). like_match ps (drop k (x # xs))"
    then obtain k where k: "k \<le> length (x # xs)" "like_match ps (drop k (x # xs))" by blast
    show "like_match ps (x # xs) \<or> (\<exists>k\<le>length xs. like_match ps (drop k xs))"
    proof (cases k)
      case 0
      with k show ?thesis by simp
    next
      case (Suc j)
      with k have "j \<le> length xs" "like_match ps (drop j xs)" by simp_all
      then show ?thesis by blast
    qed
  next
    assume "like_match ps (x # xs) \<or> (\<exists>k\<le>length xs. like_match ps (drop k xs))"
    then show "\<exists>k\<le>length (x # xs). like_match ps (drop k (x # xs))"
    proof
      assume "like_match ps (x # xs)"
      then have "0 \<le> length (x # xs) \<and> like_match ps (drop 0 (x # xs))" by simp
      then show ?thesis by blast
    next
      assume "\<exists>k\<le>length xs. like_match ps (drop k xs)"
      then obtain k where "k \<le> length xs" "like_match ps (drop k xs)" by blast
      then have "Suc k \<le> length (x # xs) \<and> like_match ps (drop (Suc k) (x # xs))" by simp
      then show ?thesis by blast
    qed
  qed
  with Cons.IH show ?case by simp
qed

lemma like_match_literal:
  "list_all (\<lambda>c. \<not> like_special c) t \<Longrightarrow>
   like_match (t @ ps) s \<longleftrightarrow> prefix t s \<and> like_match ps (drop (length t) s)"
proof (induction t arbitrary: s)
  case Nil
  then show ?case by simp
next
  case (Cons c t)
  then have c: "c \<noteq> CHR ''%''" "c \<noteq> CHR ''_''" "c \<noteq> CHR 0x5C"
    and t: "list_all (\<lambda>c. \<not> like_special c) t"
    by (simp_all add: like_special_def)
  show ?case
  proof (cases s)
    case Nil
    with c show ?thesis by simp
  next
    case (Cons x xs)
    with c Cons.IH [OF t, of xs] show ?thesis by auto
  qed
qed

lemma like_match_contains:
  assumes "list_all (\<lambda>c. \<not> like_special c) t"
  shows "like_match (CHR ''%'' # t @ [CHR ''%'']) s \<longleftrightarrow> sublist t s"
proof -
  have tail: "like_match (t @ [CHR ''%'']) r \<longleftrightarrow> prefix t r" for r
    by (simp only: like_match_literal [OF assms] like_match_percent_only simp_thms)
  have "like_match (CHR ''%'' # t @ [CHR ''%'']) s \<longleftrightarrow> (\<exists>k\<le>length s. prefix t (drop k s))"
    by (simp only: like_match_percent tail)
  also have "\<dots> \<longleftrightarrow> sublist t s"
  proof
    assume "\<exists>k\<le>length s. prefix t (drop k s)"
    then obtain k r where "drop k s = t @ r" by (auto simp: prefix_def)
    then have "s = take k s @ t @ r" by (metis append_take_drop_id)
    then show "sublist t s" unfolding sublist_def by blast
  next
    assume "sublist t s"
    then obtain a b where s: "s = a @ t @ b" unfolding sublist_def by blast
    then have "length a \<le> length s \<and> prefix t (drop (length a) s)" by simp
    then show "\<exists>k\<le>length s. prefix t (drop k s)" by blast
  qed
  finally show ?thesis .
qed

lemma like_special_code: "like_special c \<longleftrightarrow> (of_char c :: nat) \<in> {37, 95, 92}"
proof
  assume "like_special c"
  then show "(of_char c :: nat) \<in> {37, 95, 92}" by (auto simp: like_special_def)
next
  assume "(of_char c :: nat) \<in> {37, 95, 92}"
  then have "(of_char c :: nat) = of_char (CHR ''%'') \<or> (of_char c :: nat) = of_char (CHR ''_'') \<or>
             (of_char c :: nat) = of_char (CHR 0x5C)"
    by auto
  then show "like_special c" unfolding like_special_def of_char_eq_iff .
qed

lemma of_char_lower_char:
  "(of_char (lower_char c) :: nat) = (if is_upper c then of_char c + 32 else of_char c)"
  by (simp add: lower_char_def is_upper_def)

lemma lower_char_not_special: "\<not> like_special c \<Longrightarrow> \<not> like_special (lower_char c)"
  by (auto simp: like_special_code of_char_lower_char is_upper_def)

lemma toLowerCase_not_special:
  "list_all (\<lambda>c. \<not> like_special c) t \<Longrightarrow> list_all (\<lambda>c. \<not> like_special c) (toLowerCase t)"
  by (induction t) (simp_all add: toLowerCase_def lower_char_not_special)

lemma search_where_contains:
  assumes "list_all (\<lambda>c. \<not> like_special c) s"
  shows "search_where (search_pattern s) l \<longleftrightarrow> contains_ci (code l) s \<or> contains_ci (target_url l) s"
  by (simp add: search_where_def search_pattern_def contains_ci_def
      like_match_contains [OF toLowerCase_not_special [OF assms]])

lemma order_by_created_at_desc_sorted: "created_desc (order_by_created_at_desc ls)"
proof -
  have "sorted (map created_at (sort_key created_at ls))" by (rule sorted_sort_key)
  then have "sorted_wrt (\<lambda>a b. created_at a \<le> created_at b) (sort_key created_at ls)"
    by (simp add: sorted_map)
  then show ?thesis
    by (simp add: created_desc_def order_by_created_at_desc_def sorted_wrt_rev)
qed

lemma order_by_created_at_desc_mset: "mset (order_by_created_at_desc ls) = mset ls"
  by (simp add: order_by_created_at_desc_def)

section \<open>Counting clicks\<close>

text \<open>
  C1. The redirect of the existing code \<^verbatim>\<open>abc\<close> at time 30 answers 302 with the target URL and
  sets \<open>last_clicked_at\<close> and \<open>updated_at\<close> to 30, but the click count a client reads is 0
  before and 0 after: the statement assigns \<open>clicks\<close> to itself, so the redirect is counted
  zero times.
\<close>

theorem redirect_leaves_clicks:
  "fst (redirect (db_abc True) 30 ''abc'') = Response 302 (Location ''https://example.com'') \<and>
   total_clicks (db_abc True) ''abc'' = Some 0 \<and>
   total_clicks (snd (redirect (db_abc True) 30 ''abc'')) ''abc'' = Some 0 \<and>
   map last_clicked_at (rows (snd (redirect (db_abc True) 30 ''abc''))) = [Some 30] \<and>
   map updated_at (rows (snd (redirect (db_abc True) 30 ''abc''))) = [30]"
  by code_simp

text \<open>
  C2, as stated, fails on the increment endpoint: two requests for the code \<^verbatim>\<open>abc\<close> whose
  SELECT statements both run before either UPDATE both read 0 and both write 1. Both are
  answered 200 with \<open>newClicks = 1\<close>, and the final count is 1, not 0 + 2.
\<close>

theorem concurrent_increments_lost_update:
  "total_clicks (db_abc True) ''abc'' = Some 0 \<and>
   snd (exec [(0, 31), (1, 32), (0, 33), (1, 34)]
          (db_abc True, [fst (start rng_D2FD3 (ReqIncrement ''abc'')),
                         fst (start rng_D2FD3 (ReqIncrement ''abc''))])) =
     [Done (Response 200 (IncrementBody ''Clicks incremented successfully'' 1)),
      Done (Response 200 (IncrementBody ''Clicks incremented successfully'' 1))] \<and>
   total_clicks (fst (exec [(0, 31), (1, 32), (0, 33), (1, 34)]
          (db_abc True, [fst (start rng_D2FD3 (ReqIncrement ''abc'')),
                         fst (start rng_D2FD3 (ReqIncrement ''abc''))]))) ''abc'' = Some 1"
  by code_simp

text \<open>
  C2, amended. For every existing code and every \<open>N\<close>, after \<open>N\<close> requests to the increment
  endpoint for that code that are served one after another, the click count is the original
  count plus exactly \<open>N\<close>.
\<close>

theorem serial_increments_add:
  "total_clicks d c = Some k \<Longrightarrow> total_clicks (increments d ts c) c = Some (k + length ts)"
proof (induction ts arbitrary: d k)
  case Nil
  then show ?case by simp
next
  case (Cons now ts)
  from Cons.prems have "total_clicks (snd (increment d now c)) c = Some (k + 1)"
    by (rule total_clicks_increment)
  then have "total_clicks (increments (snd (increment d now c)) ts c) c = Some (k + 1 + length ts)"
    by (rule Cons.IH)
  then show ?case by simp
qed

theorem serial_increments_add_witness:
  "total_clicks (increments (db_abc True) [31, 32, 33] ''abc'') ''abc'' = Some 3"
proof -
  have "total_clicks (db_abc True) ''abc'' = Some 0" by code_simp
  from serial_increments_add [OF this, of "[31, 32, 33]"] show ?thesis by simp
qed

section \<open>Creating the same code several times\<close>

text \<open>
  C3, as stated, fails: the uniqueness check and the insertion are two statements. When two
  requests for the free code \<^verbatim>\<open>new\<close> both run their check before either inserts, then with
  a UNIQUE constraint on \<open>code\<close> the second is answered 500, not 409, and without the
  constraint both are answered 201 and the store holds the code twice.
\<close>

theorem concurrent_creates_race:
  "statuses (snd (exec [(0, 31), (1, 32), (0, 33), (1, 34)]
          (db_abc True,
           [fst (start rng_D2FD3 (ReqCreate \<lparr>body_target_url = JStr ''https://one.example'', body_custom_code = JStr ''new''\<rparr>)),
            fst (start rng_D2FD3 (ReqCreate \<lparr>body_target_url = JStr ''https://two.example'', body_custom_code = JStr ''new''\<rparr>))]))) =
     [Some 201, Some 500] \<and>
   statuses (snd (exec [(0, 31), (1, 32), (0, 33), (1, 34)]
          (db_abc False,
           [fst (start rng_D2FD3 (ReqCreate \<lparr>body_target_url = JStr ''https://one.example'', body_custom_code = JStr ''new''\<rparr>)),
            fst (start rng_D2FD3 (ReqCreate \<lparr>body_target_url = JStr ''https://two.example'', body_custom_code = JStr ''new''\<rparr>))]))) =
     [Some 201, Some 201] \<and>
   map code (rows (fst (exec [(0, 31), (1, 32), (0, 33), (1, 34)]
          (db_abc False,
           [fst (start rng_D2FD3 (ReqCreate \<lparr>body_target_url = JStr ''https://one.example'', body_custom_code = JStr ''new''\<rparr>)),
            fst (start rng_D2FD3 (ReqCreate \<lparr>body_target_url = JStr ''https://two.example'', body_custom_code = JStr ''new''\<rparr>))])))) =
     [''abc'', ''new'', ''new'']"
  by code_simp

text \<open>
  C3, amended. For every free code \<open>X\<close> in the code format and every \<open>N \<ge> 1\<close>, among \<open>N\<close> create
  requests that all ask for \<open>custom_code = X\<close> with valid target URLs and are served one after
  another, exactly the first succeeds (201) and the other \<open>N - 1\<close> are answered 409
  (CodeConflict); afterwards the store holds \<open>X\<close> once.
\<close>

theorem serial_creates_one_success:
  assumes "code_format X" and "select_by_code d X = []"
    and "list_all (\<lambda>rq. requests_code X (snd rq)) reqs" and "reqs \<noteq> []"
  shows "map status (fst (create_links g d reqs)) = 201 # replicate (length reqs - 1) 409 \<and>
         length (select_by_code (fst (snd (create_links g d reqs))) X) = 1"
proof -
  from assms(4) obtain now b rest where reqs: "reqs = (now, b) # rest"
    by (cases reqs) auto
  from assms(3) have b: "requests_code X b" and rest: "list_all (\<lambda>rq. requests_code X (snd rq)) rest"
    by (simp_all add: reqs)
  from create_link_free [OF assms(1) b assms(2)]
  obtain l d' where cr: "create_link g d now b = (Response 201 (LinkBody l), d', g)"
    and sel: "select_by_code d' X = [l]"
    by blast
  have taken: "select_by_code d' X \<noteq> []" using sel by simp
  show ?thesis
    by (simp add: reqs cr create_links_taken [OF assms(1) taken rest] sel)
qed

theorem serial_creates_one_success_witness:
  "map status (fst (create_links rng_D2FD3 (db_abc False)
       [(31, \<lparr>body_target_url = JStr ''https://one.example'', body_custom_code = JStr ''new''\<rparr>),
        (32, \<lparr>body_target_url = JStr ''https://two.example'', body_custom_code = JStr ''new''\<rparr>),
        (33, \<lparr>body_target_url = JStr ''https://three.example'', body_custom_code = JStr ''new''\<rparr>)])) =
     [201, 409, 409]"
proof -
  have 1: "code_format ''new''" by code_simp
  have 2: "select_by_code (db_abc False) ''new'' = []" by code_simp
  have 3: "list_all (\<lambda>rq. requests_code ''new'' (snd rq))
       [(31, \<lparr>body_target_url = JStr ''https://one.example'', body_custom_code = JStr ''new''\<rparr>),
        (32, \<lparr>body_target_url = JStr ''https://two.example'', body_custom_code = JStr ''new''\<rparr>),
        (33, \<lparr>body_target_url = JStr ''https://three.example'', body_custom_code = JStr ''new''\<rparr>)]"
    by code_simp
  from serial_creates_one_success [OF 1 2 3, of rng_D2FD3] show ?thesis
    by (simp add: eval_nat_numeral)
qed

section \<open>\<^verbatim>\<open>GET /api/links\<close>: order and search\<close>

text \<open>
  C9, as stated, fails for a search term with a LIKE wildcard: the term \<^verbatim>\<open>_\<close> returns the
  link \<^verbatim>\<open>abc\<close>, though neither its code nor its target URL contains an underscore.
\<close>

theorem list_links_wildcard_counterexample:
  "list_links (db_abc True) (Some ''_'') = Response 200 (LinksBody [link_abc]) \<and>
   filter (\<lambda>l. contains_ci (code l) ''_'' \<or> contains_ci (target_url l) ''_'') (rows (db_abc True)) = []"
  by code_simp

text \<open>
  C9, amended. For every state, list without a search term returns all links ordered by
  \<open>created_at\<close> descending; with a search term that has none of the characters \<^verbatim>\<open>%\<close>, \<^verbatim>\<open>_\<close> and
  backslash, it returns exactly the links whose code or target URL contains the term as a
  case-insensitive substring, in the same order.
\<close>

theorem list_links_search:
  "(\<exists>ls. list_links d None = Response 200 (LinksBody ls) \<and> created_desc ls \<and> mset ls = mset (rows d)) \<and>
   (list_all (\<lambda>c. \<not> like_special c) s \<longrightarrow>
      (\<exists>ls. list_links d (Some s) = Response 200 (LinksBody ls) \<and> created_desc ls \<and>
            mset ls = mset (filter (\<lambda>l. contains_ci (code l) s \<or> contains_ci (target_url l) s) (rows d))))"
proof (intro conjI impI)
  show "\<exists>ls. list_links d None = Response 200 (LinksBody ls) \<and> created_desc ls \<and> mset ls = mset (rows d)"
    by (simp add: list_links_def order_by_created_at_desc_sorted order_by_created_at_desc_mset)
next
  assume ns: "list_all (\<lambda>c. \<not> like_special c) s"
  show "\<exists>ls. list_links d (Some s) = Response 200 (LinksBody ls) \<and> created_desc ls \<and>
            mset ls = mset (filter (\<lambda>l. contains_ci (code l) s \<or> contains_ci (target_url l) s) (rows d))"
  proof (cases "s = []")
    case True
    then show ?thesis
      by (simp add: list_links_def order_by_created_at_desc_sorted order_by_created_at_desc_mset
          contains_ci_def toLowerCase_def)
  next
    case False
    have "filter (search_where (search_pattern s)) (rows d) =
          filter (\<lambda>l. contains_ci (code l) s \<or> contains_ci (target_url l) s) (rows d)"
      by (rule filter_cong) (simp_all add: search_where_contains [OF ns])
    with False show ?thesis
      by (simp add: list_links_def order_by_created_at_desc_sorted order_by_created_at_desc_mset)
  qed
qed

theorem list_links_search_witness:
  "(\<exists>ls. list_links db_two None = Response 200 (LinksBody ls) \<and> created_desc ls \<and>
         mset ls = mset [link_abc, link_xyz]) \<and>
   (\<exists>ls. list_links db_two (Some ''ORG'') = Response 200 (LinksBody ls) \<and> created_desc ls \<and>
         mset ls = mset [link_xyz])"
proof -
  have 1: "list_all (\<lambda>c. \<not> like_special c) ''ORG''" by code_simp
  have 2: "filter (\<lambda>l. contains_ci (code l) ''ORG'' \<or> contains_ci (target_url l) ''ORG'')
             [link_abc, link_xyz] = [link_xyz]"
    by code_simp
  have 3: "rows db_two = [link_abc, link_xyz]" by (simp add: db_two_def)
  have "(\<exists>ls. list_links db_two None = Response 200 (LinksBody ls) \<and> created_desc ls \<and>
             mset ls = mset (rows db_two)) \<and>
        (\<exists>ls. list_links db_two (Some ''ORG'') = Response 200 (LinksBody ls) \<and> created_desc ls \<and>
             mset ls = mset (filter (\<lambda>l. contains_ci (code l) ''ORG'' \<or> contains_ci (target_url l) ''ORG'')
                               (rows db_two)))"
    using list_links_search [where d = db_two and s = "''ORG''"] 1 by (simp only: simp_thms)
  then show ?thesis
    by (simp only: 3 2)
qed

lemma select_after_delete:
  "select_by_code (snd (delete_by_code d c)) c' = (if c' = c then [] else select_by_code d c')"
  by (cases "c' = c") (auto simp: delete_by_code_def select_by_code_def filter_empty_conv intro!: filter_cong)

section \<open>Further properties of the handlers\<close>

text \<open>
  X1. No redirect, of any code in any store, changes a click count: the counts of all rows
  and the count a client reads for any code are as before.
\<close>

theorem redirect_never_counts:
  "map clicks (rows (snd (redirect d now c))) = map clicks (rows d) \<and>
   total_clicks (snd (redirect d now c)) c' = total_clicks d c'"
proof -
  have "snd (redirect d now c) = snd (update_touch d now c)"
    by (simp add: redirect_def split: prod.splits list.splits)
  then have "select_by_code (snd (redirect d now c)) c' =
      (if c' = c
       then map (\<lambda>l. l\<lparr>clicks := clicks l, last_clicked_at := Some now, updated_at := now\<rparr>)
              (select_by_code d c)
       else select_by_code d c')"
    by (simp add: select_after_update_touch)
  then have "total_clicks (snd (redirect d now c)) c' = total_clicks d c'"
    by (simp add: total_clicks_def split: list.splits)
  moreover have "map clicks (rows (snd (redirect d now c))) = map clicks (rows d)"
    by (auto simp: redirect_def update_touch_def split: list.splits)
  ultimately show ?thesis by simp
qed

text \<open>
  X2. The generator always returns the first five upper-case hexadecimal digits of three
  random bytes: five characters of \<^verbatim>\<open>[0-9A-F]\<close>, in the code format, with exactly three bytes
  of the random source consumed.
\<close>

theorem generated_code_format:
  "generateShortCode g = (random_code g, \<lambda>i. g (i + 3)) \<and>
   list_all upper_hex (fst (generateShortCode g)) \<and>
   code_format (fst (generateShortCode g)) \<and> length (fst (generateShortCode g)) = 5"
proof -
  have "code_format (fst (generateShortCode g))"
    using generateShortCode_accepted [of g] by (simp add: code_rejected_iff)
  moreover have "list_all upper_hex (fst (generateShortCode g))"
    using random_code_upper_hex [of g] by (simp add: generateShortCode_random_code)
  moreover have "length (fst (generateShortCode g)) = 5"
    by (rule generateShortCode_length)
  moreover have "generateShortCode g = (random_code g, \<lambda>i. g (i + 3))"
    by (rule generateShortCode_random_code)
  ultimately show ?thesis by blast
qed

text \<open>
  X3. Delete of a code that is not in the store is answered 404 and leaves the store as it
  is. After a successful delete the code is free at once: a create request that asks for it
  (code in the code format, valid target URL) succeeds.
\<close>

theorem delete_then_reuse:
  "(select_by_code d c = [] \<longrightarrow> delete_link d c = (Response 404 (ErrorBody ''Link not found''), d)) \<and>
   (select_by_code d c \<noteq> [] \<and> code_format c \<and> prefix ''http'' u \<longrightarrow>
      fst (delete_link d c) = Response 200 (MessageBody ''Link deleted successfully'') \<and>
      select_by_code (snd (delete_link d c)) c = [] \<and>
      status (fst (create_link g (snd (delete_link d c)) now
                     \<lparr>body_target_url = JStr u, body_custom_code = JStr c\<rparr>)) = 201)"
proof (intro conjI impI)
  assume e: "select_by_code d c = []"
  then have "filter (\<lambda>l. code l \<noteq> c) (rows d) = rows d"
    by (auto simp: select_by_code_def filter_empty_conv filter_id_conv)
  with e show "delete_link d c = (Response 404 (ErrorBody ''Link not found''), d)"
    by (simp add: delete_link_def delete_by_code_def)
next
  assume a: "select_by_code d c \<noteq> [] \<and> code_format c \<and> prefix ''http'' u"
  have sn: "snd (delete_link d c) = snd (delete_by_code d c)"
    by (simp add: delete_link_def split: prod.splits)
  have free: "select_by_code (snd (delete_link d c)) c = []"
    by (simp add: sn select_after_delete)
  have acc: "\<not> target_url_rejected (JStr u)"
    using a by (simp add: prefix_http_accepted)
  have ok: "\<not> code_rejected (JStr c)" using a by (simp add: code_rejected_iff)
  have ne: "c \<noteq> []" using a by (simp add: code_format_nonempty)
  show "fst (delete_link d c) = Response 200 (MessageBody ''Link deleted successfully'')"
    using a by (simp add: delete_link_def delete_by_code_def)
  show "select_by_code (snd (delete_link d c)) c = []"
    by (rule free)
  show "status (fst (create_link g (snd (delete_link d c)) now
                     \<lparr>body_target_url = JStr u, body_custom_code = JStr c\<rparr>)) = 201"
    by (simp add: create_link_accepted [OF acc] choose_code_custom [OF ne] ok free)
qed

theorem delete_then_reuse_witness:
  "delete_link (db_abc True) ''zzz'' = (Response 404 (ErrorBody ''Link not found''), db_abc True) \<and>
   fst (delete_link (db_abc True) ''abc'') = Response 200 (MessageBody ''Link deleted successfully'') \<and>
   select_by_code (snd (delete_link (db_abc True) ''abc'')) ''abc'' = [] \<and>
   status (fst (create_link rng_D2FD3 (snd (delete_link (db_abc True) ''abc'')) 40
                     \<lparr>body_target_url = JStr ''http://again.example'', body_custom_code = JStr ''abc''\<rparr>)) = 201"
proof -
  have 1: "select_by_code (db_abc True) ''zzz'' = []" by code_simp
  have 2: "select_by_code (db_abc True) ''abc'' \<noteq> []" by code_simp
  have 3: "code_format ''abc''" by code_simp
  have 4: "prefix ''http'' ''http://again.example''" by simp
  from delete_then_reuse [where d = "db_abc True" and c = "''zzz''"] 1
  have a: "delete_link (db_abc True) ''zzz'' = (Response 404 (ErrorBody ''Link not found''), db_abc True)"
    by blast
  from delete_then_reuse [where d = "db_abc True" and c = "''abc''" and u = "''http://again.example''"
      and g = rng_D2FD3 and now = 40] 2 3 4
  show ?thesis using a by blast
qed

end
